theory Spec2Isabelle
  imports Complex_Main
begin

section \<open>Strings and patterns\<close>

text \<open>
  Python strings are modelled as \<open>string\<close> (lists of 8-bit characters), Python floats as
  exact rationals. The patterns of \<open>REGEXES\<close> that are alternations of literals, compiled
  with \<open>re.I\<close>, are modelled as a case-insensitive search for one of the literals.
\<close>

definition to_lower :: "char \<Rightarrow> char" where
  "to_lower c = (let n = (of_char c :: nat) in if 65 \<le> n \<and> n \<le> 90 then char_of (n + 32) else c)"

definition lower :: "string \<Rightarrow> string" where
  "lower s = map to_lower s"

fun starts_with :: "string \<Rightarrow> string \<Rightarrow> bool" where
  "starts_with [] s = True"
| "starts_with (p # ps) [] = False"
| "starts_with (p # ps) (c # cs) = (p = c \<and> starts_with ps cs)"

fun contains :: "string \<Rightarrow> string \<Rightarrow> bool" where
  "contains pat [] = (pat = [])"
| "contains pat (c # cs) = (starts_with pat (c # cs) \<or> contains pat cs)"

definition search_any :: "string list \<Rightarrow> string \<Rightarrow> bool" where
  "search_any lits s = list_ex (\<lambda>l. contains l (lower s)) lits"

definition negativeRe :: "string \<Rightarrow> bool" where
  "negativeRe = search_any [''combx'', ''comment'', ''com-'', ''contact'', ''foot'', ''footer'',
     ''footnote'', ''masthead'', ''media'', ''meta'', ''outbrain'', ''promo'', ''related'',
     ''scroll'', ''shoutbox'', ''sidebar'', ''sponsor'', ''shopping'', ''tags'', ''tool'',
     ''widget'']"

definition positiveRe :: "string \<Rightarrow> bool" where
  "positiveRe = search_any [''article'', ''body'', ''content'', ''entry'', ''hentry'', ''main'',
     ''page'', ''pagination'', ''post'', ''text'', ''blog'', ''story'']"

text \<open>\<open>str.split(",")\<close>: the pieces between the commas; the empty string gives one piece.\<close>

fun split_on :: "char \<Rightarrow> string \<Rightarrow> string list" where
  "split_on d [] = [[]]"
| "split_on d (c # cs) =
     (if c = d then [] # split_on d cs
      else (case split_on d cs of [] \<Rightarrow> [[c]] | w # ws \<Rightarrow> (c # w) # ws))"

section \<open>The element tree\<close>

text \<open>
  An lxml element: tag, attributes, the text before the first child, the children and the
  text after the element (its tail). An element of a document is identified by the path of
  child indices leading to it from the root of the document, which has no parent.
\<close>

datatype elem = Elem (tag: string) (attrib: "(string \<times> string) list") (etext: "string option")
  (kids: "elem list") (tail: "string option")

type_synonym node = "nat list \<times> elem"

definition or_empty :: "string option \<Rightarrow> string" where
  "or_empty x = (case x of None \<Rightarrow> [] | Some s \<Rightarrow> s)"

text \<open>\<open>elem.get(name)\<close>\<close>

definition get_attr :: "elem \<Rightarrow> string \<Rightarrow> string option" where
  "get_attr e name = map_of (attrib e) name"

text \<open>\<open>elem.text_content()\<close>: all the text of the element and of its descendants, tails of
  the descendants included.\<close>

primrec text_content :: "elem \<Rightarrow> string" where
  "text_content (Elem t a x ks y) =
     or_empty x @ concat (map (\<lambda>(k, s). s @ or_empty (tail k)) (zip ks (map text_content ks)))"

text \<open>The proper descendants of an element in document order, each with its path.\<close>

primrec descendants :: "elem \<Rightarrow> node list" where
  "descendants (Elem t a x ks y) =
     concat (map (\<lambda>(i, k, ds). ([i], k) # map (\<lambda>(p, d). (i # p, d)) ds)
                 (enumerate 0 (zip ks (map descendants ks))))"

text \<open>\<open>node.findall(".//name")\<close>\<close>

definition findall :: "string \<Rightarrow> elem \<Rightarrow> node list" where
  "findall name e = filter (\<lambda>(p, d). tag d = name) (descendants e)"

text \<open>\<open>Document.tags\<close> and \<open>Document.reverse_tags\<close>, on a tree that does not change while
  the generator runs.\<close>

definition tags :: "elem \<Rightarrow> string list \<Rightarrow> node list" where
  "tags node tag_names = concat (map (\<lambda>tag_name. findall tag_name node) tag_names)"

definition reverse_tags :: "elem \<Rightarrow> string list \<Rightarrow> node list" where
  "reverse_tags node tag_names = concat (map (\<lambda>tag_name. rev (findall tag_name node)) tag_names)"

fun subtree :: "nat list \<Rightarrow> elem \<Rightarrow> elem option" where
  "subtree [] e = Some e"
| "subtree (i # p) e = (if i < length (kids e) then subtree p (kids e ! i) else None)"

text \<open>\<open>elem.getparent()\<close> for the element at path \<open>p\<close> of the document \<open>doc\<close>.\<close>

definition getparent :: "elem \<Rightarrow> nat list \<Rightarrow> node option" where
  "getparent doc p =
     (if p = [] then None
      else (case subtree (butlast p) doc of None \<Rightarrow> None | Some e \<Rightarrow> Some (butlast p, e)))"

section \<open>Text length and link density\<close>

text \<open>
  \<open>trim\<close> is imported from the package's \<open>utils\<close> module; it is a parameter of every
  function that uses it.
\<close>

definition text_length :: "(string \<Rightarrow> string) \<Rightarrow> elem \<Rightarrow> nat" where
  "text_length trim e = length (trim (text_content e))"

definition get_link_density :: "(string \<Rightarrow> string) \<Rightarrow> elem \<Rightarrow> rat" where
  "get_link_density trim e =
     (let total_length = (if text_length trim e = 0 then 1 else text_length trim e);
          link_length = sum_list (map (\<lambda>(p, a). text_length trim a) (findall ''a'' e))
      in of_nat link_length / of_nat total_length)"

section \<open>Scoring\<close>

record candidate =
  score :: rat
  elem :: node

type_synonym candidates = "(nat list \<times> candidate) list"

definition class_weight :: "elem \<Rightarrow> int" where
  "class_weight e =
     fold (\<lambda>attribute weight.
             (let w1 = (if negativeRe attribute then weight - 25 else weight)
              in if positiveRe attribute then w1 + 25 else w1))
          (List.map_filter id [get_attr e ''class'', get_attr e ''id'']) 0"

definition DIV_SCORES :: "string list" where
  "DIV_SCORES = [''div'', ''article'']"

definition BLOCK_SCORES :: "string list" where
  "BLOCK_SCORES = [''pre'', ''td'', ''blockquote'']"

definition BAD_ELEM_SCORES :: "string list" where
  "BAD_ELEM_SCORES = [''address'', ''ol'', ''ul'', ''dl'', ''dd'', ''dt'', ''li'', ''form'', ''aside'']"

definition STRUCTURE_SCORES :: "string list" where
  "STRUCTURE_SCORES = [''h1'', ''h2'', ''h3'', ''h4'', ''h5'', ''h6'', ''th'', ''header'',
     ''footer'', ''nav'']"

definition score_node :: "node \<Rightarrow> candidate" where
  "score_node n =
     (let s = class_weight (snd n);
          name = lower (tag (snd n));
          s' = (if name \<in> set DIV_SCORES then s + 5
                else if name \<in> set BLOCK_SCORES then s + 3
                else if name \<in> set BAD_ELEM_SCORES then s - 3
                else if name \<in> set STRUCTURE_SCORES then s - 5
                else s)
      in \<lparr>score = of_int s', elem = n\<rparr>)"

text \<open>\<open>candidates[key].score += v\<close>\<close>

definition add_score :: "nat list \<Rightarrow> rat \<Rightarrow> candidates \<Rightarrow> candidates" where
  "add_score key v cs = map (\<lambda>(k, c). if k = key then (k, c\<lparr>score := score c + v\<rparr>) else (k, c)) cs"

text \<open>\<open>if n not in candidates: candidates[n] = self.score_node(n); ordered.append(n)\<close>\<close>

definition ensure_candidate :: "node \<Rightarrow> candidates \<times> nat list list \<Rightarrow> candidates \<times> nat list list" where
  "ensure_candidate n st =
     (case map_of (fst st) (fst n) of
        None \<Rightarrow> (fst st @ [(fst n, score_node n)], snd st @ [fst n])
      | Some c \<Rightarrow> st)"

text \<open>The contribution of one paragraph with trimmed text \<open>elem_text\<close>.\<close>

definition contribution :: "string \<Rightarrow> rat" where
  "contribution elem_text =
     1 + of_nat (length (split_on CHR '','' elem_text)) + min (of_nat (length elem_text) / 100) 3"

text \<open>The body of the first loop of \<open>score_paragraphs\<close>.\<close>

definition score_step ::
  "(string \<Rightarrow> string) \<Rightarrow> int \<Rightarrow> elem \<Rightarrow> node \<Rightarrow> candidates \<times> nat list list
     \<Rightarrow> candidates \<times> nat list list" where
  "score_step trim min_len doc n st =
     (case getparent doc (fst n) of
        None \<Rightarrow> st
      | Some parent_node \<Rightarrow>
          (let grand_parent_node = getparent doc (fst parent_node);
               elem_text = trim (text_content (snd n));
               elem_text_len = length elem_text
           in if int elem_text_len < min_len then st
              else
                (let st1 = ensure_candidate parent_node st;
                     st2 = (case grand_parent_node of
                              None \<Rightarrow> st1 | Some g \<Rightarrow> ensure_candidate g st1);
                     sc = contribution elem_text;
                     c3 = add_score (fst parent_node) sc (fst st2);
                     c4 = (case grand_parent_node of
                             None \<Rightarrow> c3 | Some g \<Rightarrow> add_score (fst g) (sc / 2) c3)
                 in (c4, snd st2))))"

definition score_loop ::
  "(string \<Rightarrow> string) \<Rightarrow> int \<Rightarrow> elem \<Rightarrow> candidates \<times> nat list list" where
  "score_loop trim min_len doc =
     fold (score_step trim min_len doc) (tags doc [''p'', ''pre'', ''td'']) ([], [])"

text \<open>The second loop: every candidate's score is scaled by its link density.\<close>

definition scale_step :: "(string \<Rightarrow> string) \<Rightarrow> nat list \<Rightarrow> candidates \<Rightarrow> candidates" where
  "scale_step trim key cs =
     map (\<lambda>(k, c). if k = key
                    then (k, c\<lparr>score := score c * (1 - get_link_density trim (snd (elem c)))\<rparr>)
                    else (k, c)) cs"

definition score_paragraphs :: "(string \<Rightarrow> string) \<Rightarrow> int \<Rightarrow> elem \<Rightarrow> candidates" where
  "score_paragraphs trim min_len doc =
     (let st = score_loop trim min_len doc in fold (scale_step trim) (snd st) (fst st))"

text \<open>\<open>sorted(candidates.values(), key=score, reverse=True)[0]\<close>; the sort is stable.\<close>

definition select_best_candidate :: "candidates \<Rightarrow> candidate option" where
  "select_best_candidate cs =
     (case sort_key (\<lambda>c. - score c) (map snd cs) of [] \<Rightarrow> None | c # rest \<Rightarrow> Some c)"

section \<open>The attribute stripper\<close>

text \<open>
  \<open>HTMLSTRIP\<close> is
  \<^verbatim>\<open><([^>]+) (?:width|height|style|[-a-z]*color|background[-a-z]*|on*) *= *(?:[^ "'>]+|'[^']+'|"[^"]+")([^>]*)>\<close>
  compiled with \<open>re.I\<close>. The functions below follow the backtracking matcher on it:
  \<open>match_from\<close> tries the longest first group first, \<open>match_rest\<close> matches the attribute
  name, the equals sign, the value, the second group and the closing bracket after the
  space that ends the first group. \<open>search\<close> is \<open>HTMLSTRIP.search\<close> and \<open>sub_all\<close> is
  \<open>HTMLSTRIP.sub("<\\1\\2>", html)\<close>, which replaces the matches from left to right.
\<close>

definition is_name_char :: "char \<Rightarrow> bool" where
  "is_name_char c = (c = CHR ''-'' \<or> (97 \<le> (of_char c :: nat) \<and> (of_char c :: nat) \<le> 122))"

fun ends_with :: "string \<Rightarrow> string \<Rightarrow> bool" where
  "ends_with suf s = starts_with (rev suf) (rev s)"

definition bad_attr :: "string \<Rightarrow> bool" where
  "bad_attr w =
     (w = ''width'' \<or> w = ''height'' \<or> w = ''style''
      \<or> (ends_with ''color'' w \<and> list_all is_name_char (take (length w - 5) w))
      \<or> (starts_with ''background'' w \<and> list_all is_name_char (drop 10 w))
      \<or> (case w of [] \<Rightarrow> False | c # ns \<Rightarrow> c = CHR ''o'' \<and> list_all (\<lambda>x. x = CHR ''n'') ns))"

definition match_value :: "string \<Rightarrow> string option" where
  "match_value r =
     (case r of
        [] \<Rightarrow> None
      | c # cs \<Rightarrow>
          if c = CHR 0x27 \<or> c = CHR 0x22 then
            (let body = takeWhile (\<lambda>x. x \<noteq> c) cs
             in if body = [] then None
                else (case drop (length body) cs of [] \<Rightarrow> None | q # rest \<Rightarrow> Some rest))
          else if c = CHR '' '' \<or> c = CHR ''>'' then None
          else Some (dropWhile (\<lambda>x. x \<noteq> CHR '' '' \<and> x \<noteq> CHR 0x22 \<and> x \<noteq> CHR 0x27 \<and> x \<noteq> CHR ''>'') cs))"

definition match_rest :: "string \<Rightarrow> (string \<times> string) option" where
  "match_rest cs =
     (let w = takeWhile (\<lambda>c. c \<noteq> CHR '' '' \<and> c \<noteq> CHR ''='') cs
      in if \<not> bad_attr (lower w) then None
         else (case dropWhile (\<lambda>c. c = CHR '' '') (drop (length w) cs) of
                 [] \<Rightarrow> None
               | e # r2 \<Rightarrow>
                   if e \<noteq> CHR ''='' then None
                   else (case match_value (dropWhile (\<lambda>c. c = CHR '' '') r2) of
                           None \<Rightarrow> None
                         | Some r3 \<Rightarrow>
                             (let g2 = takeWhile (\<lambda>c. c \<noteq> CHR ''>'') r3
                              in case drop (length g2) r3 of
                                   [] \<Rightarrow> None
                                 | gt # rest \<Rightarrow> Some (g2, rest)))))"

fun match_from :: "string \<Rightarrow> string \<Rightarrow> (string \<times> string \<times> string) option" where
  "match_from g1 [] = None"
| "match_from g1 (c # cs) =
     (if c = CHR ''>'' then None
      else (case match_from (g1 @ [c]) cs of
              Some m \<Rightarrow> Some m
            | None \<Rightarrow>
                if c = CHR '' '' \<and> g1 \<noteq> []
                then (case match_rest cs of None \<Rightarrow> None | Some (g2, rest) \<Rightarrow> Some (g1, g2, rest))
                else None))"

lemma drop_Cons_len: "drop n xs = y # ys \<Longrightarrow> n + length ys + 1 = length xs"
proof -
  assume a: "drop n xs = y # ys"
  then have "length (drop n xs) = length ys + 1" by simp
  moreover from a have "n < length xs" by (cases "n < length xs") auto
  ultimately show ?thesis by simp
qed

lemma match_value_len:
  assumes "match_value r = Some r3"
  shows "length r3 < length r"
proof (cases r)
  case Nil
  with assms show ?thesis by (simp add: match_value_def)
next
  case (Cons c cs)
  show ?thesis
  proof (cases "c = CHR 0x27 \<or> c = CHR 0x22")
    case True
    with assms Cons obtain q where "drop (length (takeWhile (\<lambda>x. x \<noteq> c) cs)) cs = q # r3"
      by (auto simp: match_value_def Let_def split: if_splits list.splits)
    from drop_Cons_len[OF this] Cons show ?thesis by simp
  next
    case False
    with assms Cons have
      "r3 = dropWhile (\<lambda>x. x \<noteq> CHR '' '' \<and> x \<noteq> CHR 0x22 \<and> x \<noteq> CHR 0x27 \<and> x \<noteq> CHR ''>'') cs"
      by (auto simp: match_value_def split: if_splits)
    then have "length r3 \<le> length cs" by (simp add: length_dropWhile_le)
    with Cons show ?thesis by simp
  qed
qed

lemma match_rest_len:
  assumes "match_rest cs = Some (g2, rest)"
  shows "length g2 + length rest + 3 \<le> length cs"
proof -
  define w where "w = takeWhile (\<lambda>c. c \<noteq> CHR '' '' \<and> c \<noteq> CHR ''='') cs"
  define d where "d = dropWhile (\<lambda>c. c = CHR '' '') (drop (length w) cs)"
  have eq: "match_rest cs =
     (if \<not> bad_attr (lower w) then None
      else (case d of
              [] \<Rightarrow> None
            | e # r2 \<Rightarrow>
                if e \<noteq> CHR ''='' then None
                else (case match_value (dropWhile (\<lambda>c. c = CHR '' '') r2) of
                        None \<Rightarrow> None
                      | Some r3 \<Rightarrow>
                          (case drop (length (takeWhile (\<lambda>c. c \<noteq> CHR ''>'') r3)) r3 of
                             [] \<Rightarrow> None
                           | gt # rest \<Rightarrow> Some (takeWhile (\<lambda>c. c \<noteq> CHR ''>'') r3, rest)))))"
    unfolding match_rest_def w_def d_def Let_def by (rule refl)
  from assms eq have ba: "bad_attr (lower w)" by (cases "bad_attr (lower w)") simp_all
  from assms eq ba obtain e r2 where d1: "d = e # r2" by (cases d) simp_all
  from assms eq ba d1 have e: "e = CHR ''=''" by (cases "e = CHR ''=''") simp_all
  from assms eq ba d1 e obtain r3 where
    mv: "match_value (dropWhile (\<lambda>c. c = CHR '' '') r2) = Some r3"
    by (cases "match_value (dropWhile (\<lambda>c. c = CHR '' '') r2)") simp_all
  from assms eq ba d1 e mv obtain gt where
    d2: "drop (length (takeWhile (\<lambda>c. c \<noteq> CHR ''>'') r3)) r3 = gt # rest"
    and g2: "g2 = takeWhile (\<lambda>c. c \<noteq> CHR ''>'') r3"
    by (cases "drop (length (takeWhile (\<lambda>c. c \<noteq> CHR ''>'') r3)) r3") simp_all
  from d2 g2 have l1: "length g2 + length rest + 1 = length r3"
    using drop_Cons_len[of "length g2" r3 gt rest] by simp
  from mv have l2: "length r3 < length (dropWhile (\<lambda>c. c = CHR '' '') r2)"
    by (rule match_value_len)
  have l3: "length (dropWhile (\<lambda>c. c = CHR '' '') r2) \<le> length r2"
    by (rule length_dropWhile_le)
  have "length d \<le> length (drop (length w) cs)"
    unfolding d_def by (rule length_dropWhile_le)
  with d1 have l4: "length r2 + 1 \<le> length cs" by simp
  from l1 l2 l3 l4 show ?thesis by linarith
qed

lemma match_from_len:
  "match_from g1 cs = Some (a, g2, rest) \<Longrightarrow> length a + length g2 + length rest + 4 \<le> length g1 + length cs"
proof (induction cs arbitrary: g1)
  case Nil
  then show ?case by simp
next
  case (Cons c cs)
  show ?case
  proof (cases "match_from (g1 @ [c]) cs")
    case (Some m)
    with Cons.prems have "match_from (g1 @ [c]) cs = Some (a, g2, rest)"
      by (auto split: if_splits)
    from Cons.IH[OF this] show ?thesis by simp
  next
    case None
    with Cons.prems have mr: "match_rest cs = Some (g2, rest)" and a: "a = g1"
      by (auto split: if_splits option.splits)
    from match_rest_len[OF mr] a show ?thesis by simp
  qed
qed

definition match_tag :: "string \<Rightarrow> (string \<times> string \<times> string) option" where
  "match_tag cs = match_from [] cs"

lemma match_tag_len:
  "match_tag cs = Some (g1, g2, rest) \<Longrightarrow> length g1 + length g2 + length rest + 4 \<le> length cs"
  unfolding match_tag_def using match_from_len[of "[]" cs g1 g2 rest] by simp

fun search :: "string \<Rightarrow> bool" where
  "search [] = False"
| "search (c # cs) = ((c = CHR ''<'' \<and> match_tag cs \<noteq> None) \<or> search cs)"

function sub_all :: "string \<Rightarrow> string" where
  "sub_all [] = []"
| "sub_all (c # cs) =
     (if c = CHR ''<'' then
        (case match_tag cs of
           Some (g1, g2, rest) \<Rightarrow> CHR ''<'' # g1 @ g2 @ CHR ''>'' # sub_all rest
         | None \<Rightarrow> c # sub_all cs)
      else c # sub_all cs)"
  by pat_completeness auto
termination
  by (relation "measure length") (auto dest: match_tag_len)

lemma sub_all_le: "length (sub_all s) \<le> length s"
proof (induction s rule: sub_all.induct)
  case 1
  then show ?case by simp
next
  case (2 c cs)
  show ?case
  proof (cases "c = CHR ''<''")
    case False
    with 2 show ?thesis by simp
  next
    case True
    show ?thesis
    proof (cases "match_tag cs")
      case None
      with True 2 show ?thesis by simp
    next
      case (Some m)
      then obtain g1 g2 rest where m: "match_tag cs = Some (g1, g2, rest)" by (cases m) auto
      from 2 True m have "length (sub_all rest) \<le> length rest" by auto
      with match_tag_len[OF m] True m show ?thesis by simp
    qed
  qed
qed

lemma sub_all_less: "search s \<Longrightarrow> length (sub_all s) < length s"
proof (induction s)
  case Nil
  then show ?case by simp
next
  case (Cons c cs)
  show ?case
  proof (cases "c = CHR ''<'' \<and> match_tag cs \<noteq> None")
    case True
    then obtain g1 g2 rest where m: "match_tag cs = Some (g1, g2, rest)"
      by (cases "match_tag cs") auto
    from match_tag_len[OF m] sub_all_le[of rest] True m show ?thesis by simp
  next
    case False
    with Cons.prems have "search cs" by auto
    then have "length (sub_all cs) < length cs" by (rule Cons.IH)
    moreover from False have "sub_all (c # cs) = c # sub_all cs"
      by (cases "match_tag cs") auto
    ultimately show ?thesis by simp
  qed
qed

function clean_attributes :: "string \<Rightarrow> string" where
  "clean_attributes html = (if search html then clean_attributes (sub_all html) else html)"
  by pat_completeness auto
termination
  by (relation "measure length") (auto dest: sub_all_less)

declare clean_attributes.simps [simp del]

lemma clean_attributes_fixed: "\<not> search (clean_attributes s)"
proof (induction s rule: clean_attributes.induct)
  case (1 html)
  show ?case
  proof (cases "search html")
    case True
    with 1 have "\<not> search (clean_attributes (sub_all html))" by simp
    then show ?thesis using True by (subst clean_attributes.simps) simp
  next
    case False
    then show ?thesis by (subst clean_attributes.simps) simp
  qed
qed

text \<open>
  Claim C9. The attribute stripper is idempotent: for every string \<open>s\<close>,
  \<open>clean_attributes (clean_attributes s) = clean_attributes s\<close>. The loop of
  \<open>clean_attributes\<close> always ends, since every substitution shortens the string
  (\<open>sub_all_less\<close>), and it ends only on a string in which the pattern is not found
  (\<open>clean_attributes_fixed\<close>).
\<close>

theorem clean_attributes_idempotent: "clean_attributes (clean_attributes s) = clean_attributes s"
proof -
  have "\<not> search (clean_attributes s)" by (rule clean_attributes_fixed)
  then show ?thesis by (simp add: clean_attributes.simps[of "clean_attributes s"])
qed

section \<open>The article assembler\<close>

text \<open>\<open>re.search(r"\.( |$)", s)\<close>: a period followed by a space, by the end of the string
  or by a newline that ends the string.\<close>

fun search_period :: "string \<Rightarrow> bool" where
  "search_period [] = False"
| "search_period (c # cs) =
     ((c = CHR ''.'' \<and> (cs = [] \<or> cs = [CHR 0x0A] \<or> starts_with '' '' cs)) \<or> search_period cs)"

text \<open>\<open>parent.getchildren()\<close>\<close>

definition getchildren :: "node \<Rightarrow> node list" where
  "getchildren n = map (\<lambda>(i, k). (fst n @ [i], k)) (enumerate 0 (kids (snd n)))"

text \<open>The body of the loop of \<open>get_article\<close>: the value of \<open>append\<close> for one sibling.\<close>

definition append_sibling ::
  "(string \<Rightarrow> string) \<Rightarrow> candidates \<Rightarrow> candidate \<Rightarrow> node \<Rightarrow> bool" where
  "append_sibling trim cands best_candidate sibling =
     (let sibling_score_threshold = max 10 (score best_candidate * (2 / 10))
      in if fst sibling = fst (elem best_candidate) then True
         else if (case map_of cands (fst sibling) of
                    None \<Rightarrow> False
                  | Some c \<Rightarrow> score c \<ge> sibling_score_threshold) then True
         else if tag (snd sibling) = ''p'' then
           (let link_density = get_link_density trim (snd sibling);
                node_content = or_empty (etext (snd sibling));
                node_length = length node_content
            in if node_length > 80 \<and> link_density < 25 / 100 then True
               else if node_length \<le> 80 \<and> link_density = 0 \<and> search_period node_content
               then True
               else False)
         else False)"

definition get_article_siblings ::
  "(string \<Rightarrow> string) \<Rightarrow> elem \<Rightarrow> candidates \<Rightarrow> candidate \<Rightarrow> node list" where
  "get_article_siblings trim d cands best_candidate =
     (let siblings = (case getparent d (fst (elem best_candidate)) of
                        Some parent \<Rightarrow> getchildren parent
                      | None \<Rightarrow> [elem best_candidate])
      in fold (\<lambda>sibling output.
                 if append_sibling trim cands best_candidate sibling
                 then output @ [sibling] else output) siblings [])"

text \<open>The new root \<open>fragment_fromstring("<div/>")\<close> with the appended siblings.\<close>

definition get_article ::
  "(string \<Rightarrow> string) \<Rightarrow> elem \<Rightarrow> candidates \<Rightarrow> candidate \<Rightarrow> elem" where
  "get_article trim d cands best_candidate =
     Elem ''div'' [] None (map snd (get_article_siblings trim d cands best_candidate)) None"

section \<open>The orchestrator\<close>

text \<open>
  A \<open>Document\<close> has the slots \<open>doc\<close>, \<open>min_text_length\<close> and \<open>retry_length\<close>. The steps
  of \<open>summary\<close> that change the tree in place, and the serialiser of lxml, are the fields
  of \<open>stages\<close>: \<open>summary\<close> is modelled for every behaviour of these steps.
\<close>

record document =
  doc :: elem
  min_text_length :: int
  retry_length :: int

record stages =
  trim_text :: "string \<Rightarrow> string"
  tostring :: "elem \<Rightarrow> string"
  drop_script_style :: "elem \<Rightarrow> elem"
  mark_body :: "elem \<Rightarrow> elem"
  remove_unlikely_candidates :: "elem \<Rightarrow> elem"
  transform_misused_divs_into_paragraphs :: "elem \<Rightarrow> elem"
  sanitize_tree :: "elem \<Rightarrow> candidates \<Rightarrow> elem"

definition get_clean_html :: "stages \<Rightarrow> document \<Rightarrow> string" where
  "get_clean_html S D = clean_attributes (tostring S (doc D))"

text \<open>\<open>sanitize\<close>: the cleaning of the node, then \<open>self.doc = node\<close> and
  \<open>return self.get_clean_html()\<close>.\<close>

definition sanitize :: "stages \<Rightarrow> elem \<Rightarrow> candidates \<Rightarrow> document \<Rightarrow> string \<times> document" where
  "sanitize S node cands D =
     (let D' = D\<lparr>doc := sanitize_tree S node cands\<rparr> in (get_clean_html S D', D'))"

text \<open>\<open>self.doc.find("body")\<close>: the first child of the root with tag \<open>body\<close>.\<close>

definition find_body :: "elem \<Rightarrow> elem option" where
  "find_body e = List.find (\<lambda>k. tag k = ''body'') (kids e)"

text \<open>The tree after the steps of one iteration that come before the scoring.\<close>

definition prepare :: "stages \<Rightarrow> bool \<Rightarrow> elem \<Rightarrow> elem" where
  "prepare S ruthless d =
     (let d1 = drop_script_style S d;
          d2 = mark_body S d1;
          d3 = (if ruthless then remove_unlikely_candidates S d2 else d2)
      in transform_misused_divs_into_paragraphs S d3)"

datatype outcome = Retry document | Return string document

text \<open>The end of an iteration, from \<open>cleaned_article = self.sanitize(article, candidates)\<close>.\<close>

definition finish :: "stages \<Rightarrow> bool \<Rightarrow> document \<Rightarrow> elem \<Rightarrow> candidates \<Rightarrow> outcome" where
  "finish S ruthless D article cands =
     (let (cleaned_article, D') = sanitize S article cands D;
          article_length = int (length cleaned_article)
      in if ruthless \<and> \<not> article_length \<ge> retry_length D then Retry D'
         else Return cleaned_article D')"

text \<open>One iteration of the loop of \<open>summary\<close>.\<close>

definition summary_pass :: "stages \<Rightarrow> bool \<Rightarrow> document \<Rightarrow> outcome" where
  "summary_pass S ruthless D =
     (let d = prepare S ruthless (doc D);
          cands = score_paragraphs (trim_text S) (min_text_length D) d
      in case select_best_candidate cands of
           Some best_candidate \<Rightarrow>
             finish S ruthless (D\<lparr>doc := d\<rparr>) (get_article (trim_text S) d cands best_candidate) cands
         | None \<Rightarrow>
             if ruthless then Retry (D\<lparr>doc := d\<rparr>)
             else finish S ruthless (D\<lparr>doc := d\<rparr>)
                    (case find_body d of Some article \<Rightarrow> article | None \<Rightarrow> d) cands)"

lemma finish_retry: "finish S ruthless D article cands = Retry D' \<Longrightarrow> ruthless"
  by (auto simp: finish_def Let_def split: prod.splits if_splits)

lemma summary_pass_retry: "summary_pass S ruthless D = Retry D' \<Longrightarrow> ruthless"
  by (auto simp: summary_pass_def Let_def split: option.splits if_splits dest: finish_retry)

text \<open>The loop of \<open>summary\<close>; the last argument counts the iterations.\<close>

function summary_loop :: "stages \<Rightarrow> bool \<Rightarrow> document \<Rightarrow> nat \<Rightarrow> string \<times> document \<times> nat" where
  "summary_loop S ruthless D n =
     (case summary_pass S ruthless D of
        Return cleaned_article D' \<Rightarrow> (cleaned_article, D', Suc n)
      | Retry D' \<Rightarrow> summary_loop S False D' (Suc n))"
  by pat_completeness auto
termination
  by (relation "measure (\<lambda>(S, ruthless, D, n). if ruthless then 1 else 0)")
     (auto dest: summary_pass_retry)

declare summary_loop.simps [simp del]

definition summary :: "stages \<Rightarrow> document \<Rightarrow> string \<times> document \<times> nat" where
  "summary S D = summary_loop S True D 0"

lemma lenient_returns: "\<exists>r D'. summary_pass S False D = Return r D'"
proof (cases "summary_pass S False D")
  case (Retry D')
  then show ?thesis using summary_pass_retry by blast
next
  case (Return r D')
  then show ?thesis by blast
qed

lemma summary_loop_lenient:
  "\<exists>r D'. summary_pass S False D = Return r D' \<and> summary_loop S False D n = (r, D', Suc n)"
proof -
  from lenient_returns obtain r D' where "summary_pass S False D = Return r D'" by blast
  then show ?thesis by (subst summary_loop.simps) simp
qed

lemma summary_loop_passes: "snd (snd (summary_loop S True D 0)) \<le> 2"
proof (cases "summary_pass S True D")
  case (Return r D')
  then show ?thesis by (subst summary_loop.simps) simp
next
  case (Retry D')
  from summary_loop_lenient[of S D' "Suc 0"] obtain r D'' where
    "summary_loop S False D' (Suc 0) = (r, D'', Suc (Suc 0))" by blast
  with Retry show ?thesis by (subst summary_loop.simps) simp
qed

text \<open>
  Claim C2. For every document and every behaviour of the steps, \<open>summary\<close> ends after at
  most 2 iterations of its loop (the ruthless one, then at most one lenient one), and an
  iteration that runs with \<open>ruthless = False\<close> always returns its result, whatever its
  length.
\<close>

theorem summary_at_most_two_passes:
  "snd (snd (summary S D)) \<le> 2 \<and> (\<exists>r D'. summary_pass S False D = Return r D')"
  using summary_loop_passes[of S D] lenient_returns[of S D] by (simp add: summary_def)

lemma finish_clean:
  "finish S ruthless D article cands = Return r D' \<Longrightarrow> get_clean_html S D' = r"
  by (auto simp: finish_def sanitize_def Let_def split: if_splits)

lemma summary_pass_clean: "summary_pass S ruthless D = Return r D' \<Longrightarrow> get_clean_html S D' = r"
  by (auto simp: summary_pass_def Let_def split: option.splits if_splits dest: finish_clean)

lemma summary_loop_clean:
  "summary_loop S ruthless D n = (r, D', m) \<Longrightarrow> get_clean_html S D' = r"
proof (induction S ruthless D n rule: summary_loop.induct)
  case (1 S ruthless D n)
  show ?case
  proof (cases "summary_pass S ruthless D")
    case (Return r0 D0)
    with 1(2) have "r0 = r" "D0 = D'" by (subst (asm) summary_loop.simps, simp)+
    with Return show ?thesis using summary_pass_clean by blast
  next
    case (Retry D0)
    with 1(2) have "summary_loop S False D0 (Suc n) = (r, D', m)"
      by (subst (asm) summary_loop.simps) simp
    with 1(1)[OF Retry] show ?thesis by simp
  qed
qed

text \<open>
  Claim C10. After \<open>summary\<close> returns a string, \<open>get_clean_html\<close> on the document as
  \<open>summary\<close> left it returns exactly that string.
\<close>

theorem get_clean_html_after_summary:
  "get_clean_html S (fst (snd (summary S D))) = fst (summary S D)"
  using summary_loop_clean[of S True D 0 "fst (summary S D)" "fst (snd (summary S D))" "snd (snd (summary S D))"]
  by (simp add: summary_def)

section \<open>Whitespace\<close>

definition is_space :: "char \<Rightarrow> bool" where
  "is_space c = (c = CHR '' '' \<or> c = CHR 0x09 \<or> c = CHR 0x0A \<or> c = CHR 0x0B \<or> c = CHR 0x0C
     \<or> c = CHR 0x0D)"

text \<open>\<open>str.strip()\<close>\<close>

definition strip :: "string \<Rightarrow> string" where
  "strip s = rev (dropWhile is_space (rev (dropWhile is_space s)))"

text \<open>
  Modelled from the spec: \<open>trim\<close> of the \<open>utils\<close> module is not among the sources; the
  spec only calls its result the trimmed text. \<open>trim_model\<close> removes the surrounding
  whitespace. It is used only to evaluate the functions on concrete elements.
\<close>

definition trim_model :: "string \<Rightarrow> string" where
  "trim_model s = strip s"

section \<open>The detailed filter of the sanitizer\<close>

datatype reason = Too_many_images | More_li_than_p | Less_p_than_input | Too_short_no_image
  | Too_short_many_images | Too_many_links | Bad_embeds | No_content

text \<open>\<open>counts[kind] = len(elem.findall(".//%s" % kind))\<close>\<close>

definition count_kind :: "string \<Rightarrow> elem \<Rightarrow> int" where
  "count_kind kind e = int (length (findall kind e))"

text \<open>\<open>len(elem.findall('.//input[@type="hidden"]'))\<close>\<close>

definition count_hidden_inputs :: "elem \<Rightarrow> int" where
  "count_hidden_inputs e =
     int (length (filter (\<lambda>(p, d). get_attr d ''type'' = Some ''hidden'') (findall ''input'' e)))"

text \<open>The chain of conditions of \<open>sanitize\<close> that sets \<open>reason\<close>; \<open>None\<close> when no condition
  holds. \<open>weight\<close> is the class weight of the element.\<close>

definition filter_reason :: "(string \<Rightarrow> string) \<Rightarrow> int \<Rightarrow> elem \<Rightarrow> int \<Rightarrow> reason option" where
  "filter_reason trim min_len e weight =
     (let counts_p = count_kind ''p'' e;
          counts_img = count_kind ''img'' e;
          counts_li = count_kind ''li'' e - 100;
          counts_embed = count_kind ''embed'' e;
          counts_input = count_kind ''input'' e - count_hidden_inputs e;
          content_length = int (text_length trim e);
          link_density = get_link_density trim e
      in if counts_p \<noteq> 0 \<and> (of_int counts_img :: rat) > 1 + of_int counts_p * (13 / 10)
         then Some Too_many_images
         else if counts_li > counts_p \<and> tag e \<noteq> ''ol'' \<and> tag e \<noteq> ''ul''
         then Some More_li_than_p
         else if (of_int counts_input :: rat) > of_int counts_p / 3
         then Some Less_p_than_input
         else if content_length < min_len \<and> counts_img = 0
         then Some Too_short_no_image
         else if content_length < min_len \<and> counts_img > 2
         then Some Too_short_many_images
         else if weight < 25 \<and> link_density > 2 / 10
         then Some Too_many_links
         else if weight \<ge> 25 \<and> link_density > 5 / 10
         then Some Too_many_links
         else if (counts_embed = 1 \<and> content_length < 75) \<or> counts_embed > 1
         then Some Bad_embeds
         else if content_length = 0
         then Some No_content
         else None)"

text \<open>
  The override of the last condition: the text lengths of the first following sibling with
  text and of the first preceding sibling with text (the second loop stops as soon as it
  has appended one length). \<open>following\<close> and \<open>preceding\<close> are \<open>elem.itersiblings()\<close> and
  \<open>elem.itersiblings(preceding=True)\<close>.
\<close>

definition sibling_lengths :: "(string \<Rightarrow> string) \<Rightarrow> elem list \<Rightarrow> elem list \<Rightarrow> nat list" where
  "sibling_lengths trim following preceding =
     take 1 (filter (\<lambda>l. l \<noteq> 0) (map (text_length trim) following)) @
     take 1 (filter (\<lambda>l. l \<noteq> 0) (map (text_length trim) preceding))"

text \<open>The value of \<open>to_remove\<close> at the end of the detailed filter.\<close>

definition to_remove ::
  "(string \<Rightarrow> string) \<Rightarrow> int \<Rightarrow> elem \<Rightarrow> int \<Rightarrow> elem list \<Rightarrow> elem list \<Rightarrow> bool" where
  "to_remove trim min_len e weight following preceding =
     (case filter_reason trim min_len e weight of
        None \<Rightarrow> False
      | Some r \<Rightarrow>
          if r = No_content then
            (let siblings = sibling_lengths trim following preceding
             in \<not> (siblings \<noteq> [] \<and> sum_list siblings > 1000))
          else True)"

definition two_images :: elem where
  "two_images = Elem ''div'' [] (Some ''Two pictures of the old harbour at dawn'')
     [Elem ''img'' [] None [] None, Elem ''img'' [] None [] None] None"

definition three_images :: elem where
  "three_images = Elem ''div'' [] None
     [Elem ''p'' [] (Some ''One short paragraph of text here'') [] None,
      Elem ''img'' [] None [] None, Elem ''img'' [] None [] None, Elem ''img'' [] None [] None] None"

text \<open>
  Claim C4, as stated, fails: the element \<open>two_images\<close> has two images and no paragraph,
  so its image count exceeds \<open>1 + p_count * 1.3\<close>, but the chain gives it no reason and
  the element is kept.
\<close>

theorem too_many_images_counterexample:
  "(of_int (count_kind ''img'' two_images) :: rat) > 1 + of_int (count_kind ''p'' two_images) * (13 / 10)
   \<and> filter_reason trim_model 25 two_images 0 = None
   \<and> to_remove trim_model 25 two_images 0 [] [] = False"
  by (simp add: to_remove_def filter_reason_def count_kind_def count_hidden_inputs_def two_images_def findall_def
      get_link_density_def text_length_def trim_model_def strip_def is_space_def or_empty_def)

text \<open>
  Claim C4, amended. In the detailed filter, every element with a paragraph count other
  than 0 whose image count exceeds \<open>1 + p_count * 1.3\<close> is removed with the reason
  "too many images", whatever the later conditions say; the source guards the rule with
  \<open>counts["p"] and ...\<close>, so for a paragraph count of 0 this rule never gives the reason.
\<close>

theorem too_many_images_rule:
  "(count_kind ''p'' e \<noteq> 0 \<and> (of_int (count_kind ''img'' e) :: rat) > 1 + of_int (count_kind ''p'' e) * (13 / 10)
      \<longrightarrow> filter_reason trim min_len e weight = Some Too_many_images
          \<and> to_remove trim min_len e weight following preceding)
   \<and> (count_kind ''p'' e = 0 \<longrightarrow> filter_reason trim min_len e weight \<noteq> Some Too_many_images)"
  by (simp add: filter_reason_def to_remove_def Let_def)

text \<open>
  The amended rule at two elements: \<open>three_images\<close> (one paragraph, three images) is
  removed for its images, \<open>two_images\<close> (no paragraph) is not.
\<close>

theorem too_many_images_rule_witness:
  "count_kind ''p'' three_images \<noteq> 0
   \<and> (of_int (count_kind ''img'' three_images) :: rat) > 1 + of_int (count_kind ''p'' three_images) * (13 / 10)
   \<and> filter_reason trim_model 25 three_images 0 = Some Too_many_images
   \<and> to_remove trim_model 25 three_images 0 [] []
   \<and> count_kind ''p'' two_images = 0
   \<and> filter_reason trim_model 25 two_images 0 \<noteq> Some Too_many_images"
proof -
  have a: "count_kind ''p'' three_images \<noteq> 0
    \<and> (of_int (count_kind ''img'' three_images) :: rat) > 1 + of_int (count_kind ''p'' three_images) * (13 / 10)"
    by (simp add: count_kind_def three_images_def findall_def)
  have b: "count_kind ''p'' two_images = 0"
    by (simp add: count_kind_def two_images_def findall_def)
  from a b too_many_images_rule[of three_images trim_model 25 0 "[]" "[]"]
    too_many_images_rule[of two_images trim_model 25 0 "[]" "[]"]
  show ?thesis by blast
qed

end
